theory Spec2Isabelle
  imports Main "HOL-Library.Sublist"
begin

section \<open>The document queue of the Elasticsearch indexer\<close>

text \<open>
  A shallow embedding of \<^verbatim>\<open>lambdas/es/indexer/document_queue.py\<close>: the class
  \<^verbatim>\<open>DocumentQueue\<close> with its methods \<^verbatim>\<open>append\<close>, \<^verbatim>\<open>append_document\<close> and
  \<^verbatim>\<open>send_all\<close>, and the helper \<^verbatim>\<open>bulk_send\<close>.
\<close>

subsection \<open>Values and documents\<close>

text \<open>
  The argument \<^verbatim>\<open>version_id\<close> of \<^verbatim>\<open>append\<close> is checked with \<^verbatim>\<open>isinstance\<close>, so it is
  modelled as a dynamically typed Python value.
\<close>

datatype pyval =
    PyNone
  | PyStr string
  | PyInt int
  | PyBool bool
  | PyBytes string
  | PyList "pyval list"

text \<open>Exceptions that leave the methods of the class.\<close>

datatype exc = ValueError | KeyError | RetryError

datatype outcome = Return | Raise exc

text \<open>
  The dictionary \<^verbatim>\<open>body\<close> built by \<^verbatim>\<open>append\<close>, one field per key. The key
  \<^verbatim>\<open>version_id\<close> holds \<^verbatim>\<open>None\<close> or a string, the only values that pass the check.
\<close>

record doc =
  d_id :: string
  d_index :: string
  d_type :: string
  d_op_type :: string
  d_comment :: string
  d_content :: string
  d_etag :: string
  d_event :: string
  d_ext :: string
  d_key :: string
  d_last_modified :: string
  d_meta_text :: string
  d_size :: int
  d_target :: string
  d_updated :: string
  d_version_id :: "string option"

text \<open>The arguments of \<^verbatim>\<open>append\<close>; \<^verbatim>\<open>last_modified\<close> is given by its \<^verbatim>\<open>isoformat()\<close>.\<close>

record append_args =
  a_event_type :: string
  a_size :: int
  a_last_modified :: string
  a_bucket :: string
  a_ext :: string
  a_key :: string
  a_text :: string
  a_etag :: string
  a_version_id :: pyval

subsection \<open>Constants\<close>

definition EVENT_PREFIX_Created :: string where
  "EVENT_PREFIX_Created = ''ObjectCreated:''"

definition EVENT_PREFIX_Removed :: string where
  "EVENT_PREFIX_Removed = ''ObjectRemoved:''"

definition QUEUE_LIMIT_BYTES :: int where
  "QUEUE_LIMIT_BYTES = 100000000"

text \<open>
  \<^verbatim>\<open>ELASTIC_LIMIT_BYTES\<close> is imported from \<^verbatim>\<open>t4_lambda_shared.preview\<close>; it is a
  parameter \<open>elb\<close> of the functions that use it.
\<close>

subsection \<open>The queue object and its surroundings\<close>

text \<open>The fields \<^verbatim>\<open>self.queue\<close> and \<^verbatim>\<open>self.size\<close>.\<close>

record document_queue =
  queue :: "doc list"
  size_total :: int

definition init :: document_queue where
  "init = \<lparr>queue = [], size_total = 0\<rparr>"

text \<open>
  A failure entry of the bulk response is a dictionary from an operation name to a
  dictionary of fields, of which only \<^verbatim>\<open>_id\<close> is read.
\<close>

type_synonym inner = "string \<rightharpoonup> string"
type_synonym error_entry = "string \<rightharpoonup> inner"

text \<open>
  The search backend answers a bulk call with a list of failure entries and moves to a
  new state of its own. The surroundings of the queue hold that state, a log of the bulk
  calls made (request and failure list), and a count of the calls of \<^verbatim>\<open>send_all\<close>.
\<close>

type_synonym 'w backend = "'w \<Rightarrow> doc list \<Rightarrow> error_entry list \<times> 'w"

record 'w env =
  es :: 'w
  dispatched :: "(doc list \<times> error_entry list) list"
  flushes :: nat

definition bulk_send :: "'w backend \<Rightarrow> 'w env \<Rightarrow> doc list \<Rightarrow> error_entry list \<times> 'w env" where
  "bulk_send bk e list =
     (case bk (es e) list of
        (errors, w) \<Rightarrow> (errors, e\<lparr>es := w, dispatched := dispatched e @ [(list, errors)]\<rparr>))"

subsection \<open>\<^verbatim>\<open>append_document\<close>\<close>

definition append_document :: "int \<Rightarrow> doc \<Rightarrow> document_queue \<Rightarrow> document_queue" where
  "append_document elb d s =
     (let s1 = (if d_content d \<noteq> [] then s\<lparr>size_total := size_total s + min (d_size d) elb\<rparr> else s)
      in s1\<lparr>queue := queue s1 @ [d]\<rparr>)"

subsection \<open>\<^verbatim>\<open>send_all\<close>\<close>

text \<open>
  The construction of the client (lines 133 to 155) is taken to succeed; the model starts
  at the test of \<^verbatim>\<open>self.queue\<close> and goes on with the first call of \<^verbatim>\<open>bulk_send\<close>.
\<close>

text \<open>\<^verbatim>\<open>{d["_id"]: d for d in self.queue}\<close>: a later document replaces an earlier one.\<close>

definition id_to_doc :: "doc list \<Rightarrow> (string \<rightharpoonup> doc)" where
  "id_to_doc q = foldl (\<lambda>m d. m(d_id d \<mapsto> d)) Map.empty q"

text \<open>
  Two list objects are in reach of the loop: the list that \<^verbatim>\<open>self.queue\<close> refers to, and
  the list made by \<^verbatim>\<open>send_again = []\<close>. The variable \<^verbatim>\<open>send_again\<close> refers to one of them:
  \<^verbatim>\<open>send_again = self.queue\<close> copies the reference, not the list, and
  \<^verbatim>\<open>send_again.append(doc)\<close> changes the list referred to.
\<close>

datatype list_ref = FreshList | QueueList

record frame =
  queue_obj :: "doc list"
  fresh_obj :: "doc list"
  send_again :: list_ref

definition deref :: "frame \<Rightarrow> doc list" where
  "deref fr = (case send_again fr of FreshList \<Rightarrow> fresh_obj fr | QueueList \<Rightarrow> queue_obj fr)"

definition send_again_append :: "doc \<Rightarrow> frame \<Rightarrow> frame" where
  "send_again_append d fr =
     (case send_again fr of
        FreshList \<Rightarrow> fr\<lparr>fresh_obj := fresh_obj fr @ [d]\<rparr>
      | QueueList \<Rightarrow> fr\<lparr>queue_obj := queue_obj fr @ [d]\<rparr>)"

text \<open>The part of the loop body under \<^verbatim>\<open>if "_id" in inner\<close>.\<close>

definition retry_inner :: "(string \<rightharpoonup> doc) \<Rightarrow> inner \<Rightarrow> frame \<Rightarrow> exc + frame" where
  "retry_inner m i fr =
     (case i ''_id'' of
        None \<Rightarrow> Inr fr
      | Some k \<Rightarrow> (case m k of None \<Rightarrow> Inl KeyError | Some d \<Rightarrow> Inr (send_again_append d fr)))"

text \<open>
  One turn of \<^verbatim>\<open>for error in errors\<close>. With both keys present \<^verbatim>\<open>inner\<close> is assigned
  twice and the entry under \<^verbatim>\<open>delete\<close> stays.
\<close>

definition retry_step :: "(string \<rightharpoonup> doc) \<Rightarrow> error_entry \<Rightarrow> frame \<Rightarrow> exc + frame" where
  "retry_step m error fr =
     (case (error ''index'', error ''delete'') of
        (None, None) \<Rightarrow> Inr (fr\<lparr>send_again := QueueList\<rparr>)
      | (_, Some i) \<Rightarrow> retry_inner m i fr
      | (Some i, None) \<Rightarrow> retry_inner m i fr)"

fun retry_loop :: "(string \<rightharpoonup> doc) \<Rightarrow> error_entry list \<Rightarrow> frame \<Rightarrow> exc option \<times> frame" where
  "retry_loop m [] fr = (None, fr)"
| "retry_loop m (error # errors) fr =
     (case retry_step m error fr of
        Inl x \<Rightarrow> (Some x, fr)
      | Inr fr' \<Rightarrow> retry_loop m errors fr')"

text \<open>Lines 162 to 182: the dictionary, the empty list and the loop.\<close>

definition classify :: "doc list \<Rightarrow> error_entry list \<Rightarrow> exc option \<times> frame" where
  "classify q errors =
     retry_loop (id_to_doc q) errors \<lparr>queue_obj = q, fresh_obj = [], send_again = FreshList\<rparr>"

definition send_all ::
  "'w backend \<Rightarrow> document_queue \<Rightarrow> 'w env \<Rightarrow> outcome \<times> document_queue \<times> 'w env" where
  "send_all bk s e0 =
     (let e = e0\<lparr>flushes := Suc (flushes e0)\<rparr> in
      if queue s = [] then (Return, s, e)
      else
        (case bulk_send bk e (queue s) of
           (errors, e1) \<Rightarrow>
             if errors \<noteq> [] then
               (case classify (queue s) errors of
                  (Some x, fr) \<Rightarrow> (Raise x, s\<lparr>queue := queue_obj fr\<rparr>, e1)
                | (None, fr) \<Rightarrow>
                    if deref fr \<noteq> [] then
                      (case bulk_send bk e1 (deref fr) of
                         (errors2, e2) \<Rightarrow>
                           if errors2 \<noteq> [] then (Raise RetryError, s\<lparr>queue := queue_obj fr\<rparr>, e2)
                           else (Return, s\<lparr>size_total := 0, queue := []\<rparr>, e2))
                    else (Return, s\<lparr>size_total := 0, queue := []\<rparr>, e1))
             else (Return, s\<lparr>size_total := 0, queue := []\<rparr>, e1)))"

subsection \<open>\<^verbatim>\<open>append\<close>\<close>

text \<open>\<^verbatim>\<open>isinstance(version_id, (str, type(None)))\<close> and the value that passes it.\<close>

fun isinstance_str_or_none :: "pyval \<Rightarrow> bool" where
  "isinstance_str_or_none PyNone = True"
| "isinstance_str_or_none (PyStr v) = True"
| "isinstance_str_or_none _ = False"

fun version_of :: "pyval \<Rightarrow> string option" where
  "version_of (PyStr v) = Some v"
| "version_of _ = None"

text \<open>How an f-string prints \<^verbatim>\<open>{version_id}\<close>.\<close>

fun format_version :: "string option \<Rightarrow> string" where
  "format_version None = ''None''"
| "format_version (Some v) = v"

text \<open>The dictionary \<^verbatim>\<open>body\<close>; \<open>now\<close> is \<^verbatim>\<open>datetime.utcnow().isoformat()\<close>.\<close>

definition body :: "string \<Rightarrow> append_args \<Rightarrow> doc" where
  "body now a =
     \<lparr>d_id = a_key a @ '':'' @ format_version (version_of (a_version_id a)),
      d_index = a_bucket a,
      d_type = ''_doc'',
      d_op_type = (if prefix EVENT_PREFIX_Removed (a_event_type a) then ''delete'' else ''index''),
      d_comment = '''',
      d_content = a_text a,
      d_etag = a_etag a,
      d_event = a_event_type a,
      d_ext = a_ext a,
      d_key = a_key a,
      d_last_modified = a_last_modified a,
      d_meta_text = '''',
      d_size = a_size a,
      d_target = '''',
      d_updated = now,
      d_version_id = version_of (a_version_id a)\<rparr>"

definition append ::
  "'w backend \<Rightarrow> int \<Rightarrow> string \<Rightarrow> append_args \<Rightarrow> document_queue \<Rightarrow> 'w env
     \<Rightarrow> outcome \<times> document_queue \<times> 'w env" where
  "append bk elb now a s e =
     (if \<not> isinstance_str_or_none (a_version_id a) then (Raise ValueError, s, e)
      else if \<not> prefix EVENT_PREFIX_Created (a_event_type a)
              \<and> \<not> prefix EVENT_PREFIX_Removed (a_event_type a) then (Return, s, e)
      else
        (let s1 = append_document elb (body now a) s in
         if size_total s1 \<ge> QUEUE_LIMIT_BYTES then send_all bk s1 e else (Return, s1, e)))"

subsection \<open>Sequences of calls\<close>

datatype call = Append string append_args | AppendDocument doc | SendAll

fun exec ::
  "'w backend \<Rightarrow> int \<Rightarrow> call \<Rightarrow> document_queue \<Rightarrow> 'w env \<Rightarrow> outcome \<times> document_queue \<times> 'w env" where
  "exec bk elb (Append now a) s e = append bk elb now a s e"
| "exec bk elb (AppendDocument d) s e = (Return, append_document elb d s, e)"
| "exec bk elb SendAll s e = send_all bk s e"

text \<open>An exception ends the sequence.\<close>

fun run ::
  "'w backend \<Rightarrow> int \<Rightarrow> call list \<Rightarrow> document_queue \<Rightarrow> 'w env \<Rightarrow> outcome \<times> document_queue \<times> 'w env" where
  "run bk elb [] s e = (Return, s, e)"
| "run bk elb (c # cs) s e =
     (case exec bk elb c s e of
        (Return, s', e') \<Rightarrow> run bk elb cs s' e'
      | (Raise x, s', e') \<Rightarrow> (Raise x, s', e'))"

text \<open>The contribution of the pending documents to the running total.\<close>

definition budget :: "int \<Rightarrow> doc list \<Rightarrow> int" where
  "budget elb q = sum_list (map (\<lambda>d. min (d_size d) elb) (filter (\<lambda>d. d_content d \<noteq> []) q))"


subsection \<open>Concrete inputs\<close>

text \<open>
  A backend that answers successive bulk calls from a prepared list of failure lists, and
  with no failure once the list is used up.
\<close>

definition scripted_backend :: "error_entry list list backend" where
  "scripted_backend w list = (case w of [] \<Rightarrow> ([], []) | r # rs \<Rightarrow> (r, rs))"

definition start :: "error_entry list list \<Rightarrow> error_entry list list env" where
  "start rs = \<lparr>es = rs, dispatched = [], flushes = 0\<rparr>"

text \<open>A failure entry \<^verbatim>\<open>{op: {"_id": k}}\<close>, and one with a key that is no operation.\<close>

definition failure :: "string \<Rightarrow> string \<Rightarrow> error_entry" where
  "failure op k = [op \<mapsto> [''_id'' \<mapsto> k]]"

definition unknown_failure :: error_entry where
  "unknown_failure = [''event_we_never_heard_of'' \<mapsto> Map.empty]"

definition event_args :: "string \<Rightarrow> string \<Rightarrow> string \<Rightarrow> int \<Rightarrow> pyval \<Rightarrow> append_args" where
  "event_args t k txt n v =
     \<lparr>a_event_type = t, a_size = n, a_last_modified = ''2020-01-01T00:00:00'',
      a_bucket = ''bucket'', a_ext = ''.txt'', a_key = k, a_text = txt, a_etag = ''etag'',
      a_version_id = v\<rparr>"

definition sample :: "string \<Rightarrow> string \<Rightarrow> int \<Rightarrow> doc" where
  "sample k txt n = body ''now'' (event_args ''ObjectCreated:Put'' k txt n PyNone)"

definition two_docs :: document_queue where
  "two_docs = \<lparr>queue = [sample ''a'' ''x'' 5, sample ''b'' '''' 7], size_total = 5\<rparr>"

definition frame0 :: frame where
  "frame0 = \<lparr>queue_obj = queue two_docs, fresh_obj = [], send_again = FreshList\<rparr>"

definition removed_args :: append_args where
  "removed_args = event_args ''ObjectRemoved:Delete'' ''k'' ''abc'' 3 (PyStr ''v1'')"

definition big_args :: append_args where
  "big_args = event_args ''ObjectCreated:Put'' ''k'' ''text'' 150000000 PyNone"

subsection \<open>Notions used in the statements\<close>

text \<open>
  A failure entry asks for the whole batch when it has neither the key \<^verbatim>\<open>index\<close> nor the
  key \<^verbatim>\<open>delete\<close>: the \<^verbatim>\<open>else\<close> branch of the loop.
\<close>

definition whole_batch :: "error_entry \<Rightarrow> bool" where
  "whole_batch error \<longleftrightarrow> error ''index'' = None \<and> error ''delete'' = None"

text \<open>
  The document that a failure entry names: the one that the dictionary of identifiers
  holds for the \<^verbatim>\<open>_id\<close> of the entry's operation record, if there is one.
\<close>

definition named_doc :: "(string \<rightharpoonup> doc) \<Rightarrow> error_entry \<Rightarrow> doc list" where
  "named_doc m error =
     (case (case error ''delete'' of Some i \<Rightarrow> Some i | None \<Rightarrow> error ''index'') of
        None \<Rightarrow> []
      | Some i \<Rightarrow> (case i ''_id'' of None \<Rightarrow> [] | Some k \<Rightarrow> (case m k of None \<Rightarrow> [] | Some d \<Rightarrow> [d])))"

definition named_docs :: "(string \<rightharpoonup> doc) \<Rightarrow> error_entry list \<Rightarrow> doc list" where
  "named_docs m errors = concat (map (named_doc m) errors)"

lemmas concrete_defs =
  scripted_backend_def start_def failure_def unknown_failure_def event_args_def sample_def
  two_docs_def frame0_def removed_args_def big_args_def whole_batch_def named_doc_def named_docs_def
  body_def append_def send_all_def bulk_send_def classify_def id_to_doc_def retry_step_def
  retry_inner_def send_again_append_def deref_def append_document_def init_def budget_def
  EVENT_PREFIX_Created_def EVENT_PREFIX_Removed_def QUEUE_LIMIT_BYTES_def

section \<open>Properties\<close>

subsection \<open>The retry loop\<close>

lemma send_again_append_deref: "deref (send_again_append d fr) = deref fr @ [d]"
  by (simp add: send_again_append_def deref_def split: list_ref.splits)

lemma send_again_append_ref: "send_again (send_again_append d fr) = send_again fr"
  by (simp add: send_again_append_def split: list_ref.splits)

lemma send_again_append_prefix: "prefix (queue_obj fr) (queue_obj (send_again_append d fr))"
  by (simp add: send_again_append_def split: list_ref.splits)

lemma retry_inner_cases:
  "retry_inner m i fr = Inr fr' \<Longrightarrow>
     fr' = fr \<or> (\<exists>d. fr' = send_again_append d fr)"
  by (auto simp: retry_inner_def split: option.splits)

lemma retry_inner_exc: "retry_inner m i fr = Inl x \<Longrightarrow> x = KeyError"
  by (auto simp: retry_inner_def split: option.splits)

lemma retry_step_exc: "retry_step m error fr = Inl x \<Longrightarrow> x = KeyError"
  by (auto simp: retry_step_def split: option.splits dest: retry_inner_exc)

lemma retry_step_cases:
  "retry_step m error fr = Inr fr' \<Longrightarrow>
     fr' = fr \<or> (\<exists>d. fr' = send_again_append d fr) \<or> fr' = fr\<lparr>send_again := QueueList\<rparr>"
  by (auto simp: retry_step_def split: option.splits dest: retry_inner_cases)

lemma retry_step_prefix:
  "retry_step m error fr = Inr fr' \<Longrightarrow> prefix (queue_obj fr) (queue_obj fr')"
  by (auto dest!: retry_step_cases simp: send_again_append_prefix)

lemma retry_step_keeps_alias:
  "retry_step m error fr = Inr fr' \<Longrightarrow> send_again fr = QueueList \<Longrightarrow> send_again fr' = QueueList"
  by (auto dest!: retry_step_cases simp: send_again_append_ref)

lemma retry_step_unknown:
  "error ''index'' = None \<Longrightarrow> error ''delete'' = None \<Longrightarrow>
     retry_step m error fr = Inr (fr\<lparr>send_again := QueueList\<rparr>)"
  by (simp add: retry_step_def)

lemma retry_loop_exc: "retry_loop m errors fr = (Some x, fr') \<Longrightarrow> x = KeyError"
  by (induction errors arbitrary: fr) (auto split: sum.splits dest: retry_step_exc)

lemma retry_loop_prefix:
  "retry_loop m errors fr = (x, fr') \<Longrightarrow> prefix (queue_obj fr) (queue_obj fr')"
proof (induction errors arbitrary: fr)
  case Nil
  then show ?case by simp
next
  case (Cons error errors)
  show ?case
  proof (cases "retry_step m error fr")
    case (Inl y)
    with Cons.prems show ?thesis by simp
  next
    case (Inr fr1)
    with Cons.prems have "retry_loop m errors fr1 = (x, fr')" by simp
    then have "prefix (queue_obj fr1) (queue_obj fr')" by (rule Cons.IH)
    moreover have "prefix (queue_obj fr) (queue_obj fr1)" using Inr by (rule retry_step_prefix)
    ultimately show ?thesis by (rule prefix_order.trans[rotated])
  qed
qed

lemma retry_loop_keeps_alias:
  "retry_loop m errors fr = (None, fr') \<Longrightarrow> send_again fr = QueueList \<Longrightarrow> send_again fr' = QueueList"
  by (induction errors arbitrary: fr) (auto split: sum.splits dest: retry_step_keeps_alias)

lemma retry_loop_unknown:
  "retry_loop m errors fr = (None, fr') \<Longrightarrow> error \<in> set errors \<Longrightarrow>
     error ''index'' = None \<Longrightarrow> error ''delete'' = None \<Longrightarrow> send_again fr' = QueueList"
proof (induction errors arbitrary: fr)
  case Nil
  then show ?case by simp
next
  case (Cons e errors)
  show ?case
  proof (cases "e = error")
    case True
    with Cons.prems have "retry_loop m errors (fr\<lparr>send_again := QueueList\<rparr>) = (None, fr')"
      by (simp add: retry_step_unknown)
    then show ?thesis by (rule retry_loop_keeps_alias) simp
  next
    case False
    with Cons.prems have mem: "error \<in> set errors" by simp
    from Cons.prems(1) obtain fr1 where "retry_step m e fr = Inr fr1" "retry_loop m errors fr1 = (None, fr')"
      by (auto split: sum.splits)
    then show ?thesis using Cons.IH mem Cons.prems(3,4) by blast
  qed
qed

lemma classify_exc: "classify q errors = (Some x, fr) \<Longrightarrow> x = KeyError"
  unfolding classify_def by (rule retry_loop_exc)

lemma classify_prefix: "classify q errors = (x, fr) \<Longrightarrow> prefix q (queue_obj fr)"
  unfolding classify_def by (drule retry_loop_prefix) simp



lemma send_all_cases:
  assumes "send_all bk s e = (r, s', e')"
  shows "(r = Return \<and> ((queue s = [] \<and> s' = s) \<or> (queue s \<noteq> [] \<and> s' = s\<lparr>size_total := 0, queue := []\<rparr>)))
       \<or> (\<exists>x. r = Raise x \<and> (x = KeyError \<or> x = RetryError) \<and> queue s \<noteq> []
              \<and> size_total s' = size_total s \<and> prefix (queue s) (queue s'))"
  using assms
  by (auto simp: send_all_def Let_def split: if_splits prod.splits option.splits
           dest: classify_exc classify_prefix)

subsection \<open>The paths through \<^verbatim>\<open>send_all\<close>\<close>

lemma send_all_empty:
  "queue s = [] \<Longrightarrow> send_all bk s e = (Return, s, e\<lparr>flushes := Suc (flushes e)\<rparr>)"
  by (simp add: send_all_def)

lemma send_all_first_ok:
  "queue s \<noteq> [] \<Longrightarrow> bk (es e) (queue s) = ([], w) \<Longrightarrow>
     send_all bk s e =
       (Return, \<lparr>queue = [], size_total = 0\<rparr>,
        \<lparr>es = w, dispatched = dispatched e @ [(queue s, [])], flushes = Suc (flushes e)\<rparr>)"
  by (simp add: send_all_def bulk_send_def)

lemma send_all_KeyError:
  "queue s \<noteq> [] \<Longrightarrow> bk (es e) (queue s) = (errors, w) \<Longrightarrow> errors \<noteq> [] \<Longrightarrow>
   classify (queue s) errors = (Some x, fr) \<Longrightarrow>
     send_all bk s e =
       (Raise x, \<lparr>queue = queue_obj fr, size_total = size_total s\<rparr>,
        \<lparr>es = w, dispatched = dispatched e @ [(queue s, errors)], flushes = Suc (flushes e)\<rparr>)"
  by (simp add: send_all_def bulk_send_def)

lemma send_all_nothing_to_resend:
  "queue s \<noteq> [] \<Longrightarrow> bk (es e) (queue s) = (errors, w) \<Longrightarrow> errors \<noteq> [] \<Longrightarrow>
   classify (queue s) errors = (None, fr) \<Longrightarrow> deref fr = [] \<Longrightarrow>
     send_all bk s e =
       (Return, \<lparr>queue = [], size_total = 0\<rparr>,
        \<lparr>es = w, dispatched = dispatched e @ [(queue s, errors)], flushes = Suc (flushes e)\<rparr>)"
  by (simp add: send_all_def bulk_send_def)

lemma send_all_retry:
  "queue s \<noteq> [] \<Longrightarrow> bk (es e) (queue s) = (errors, w) \<Longrightarrow> errors \<noteq> [] \<Longrightarrow>
   classify (queue s) errors = (None, fr) \<Longrightarrow> deref fr \<noteq> [] \<Longrightarrow>
   bk w (deref fr) = (errors2, w2) \<Longrightarrow>
     send_all bk s e =
       (if errors2 \<noteq> [] then (Raise RetryError, \<lparr>queue = queue_obj fr, size_total = size_total s\<rparr>,
          \<lparr>es = w2, dispatched = dispatched e @ [(queue s, errors), (deref fr, errors2)],
           flushes = Suc (flushes e)\<rparr>)
        else (Return, \<lparr>queue = [], size_total = 0\<rparr>,
          \<lparr>es = w2, dispatched = dispatched e @ [(queue s, errors), (deref fr, errors2)],
           flushes = Suc (flushes e)\<rparr>))"
  by (simp add: send_all_def bulk_send_def)

text \<open>The five ways through send_all.\<close>

lemma send_all_paths:
  obtains
    (empty) "queue s = []"
  | (first_ok) w where "queue s \<noteq> []" "bk (es e) (queue s) = ([], w)"
  | (key_error) errors w x fr where "queue s \<noteq> []" "bk (es e) (queue s) = (errors, w)"
      "errors \<noteq> []" "classify (queue s) errors = (Some x, fr)"
  | (no_resend) errors w fr where "queue s \<noteq> []" "bk (es e) (queue s) = (errors, w)"
      "errors \<noteq> []" "classify (queue s) errors = (None, fr)" "deref fr = []"
  | (retry) errors w fr errors2 w2 where "queue s \<noteq> []" "bk (es e) (queue s) = (errors, w)"
      "errors \<noteq> []" "classify (queue s) errors = (None, fr)" "deref fr \<noteq> []"
      "bk w (deref fr) = (errors2, w2)"
proof (cases "queue s = []")
  case True
  then show ?thesis by (rule empty)
next
  case q: False
  obtain errors w where b1: "bk (es e) (queue s) = (errors, w)" by (cases "bk (es e) (queue s)")
  show ?thesis
  proof (cases "errors = []")
    case True
    with b1 have "bk (es e) (queue s) = ([], w)" by simp
    with q show ?thesis by (rule first_ok)
  next
    case ne: False
    obtain x fr where c: "classify (queue s) errors = (x, fr)" by (cases "classify (queue s) errors")
    show ?thesis
    proof (cases x)
      case None
      with c have c': "classify (queue s) errors = (None, fr)" by simp
      obtain errors2 w2 where b2: "bk w (deref fr) = (errors2, w2)" by (cases "bk w (deref fr)")
      show ?thesis
      proof (cases "deref fr = []")
        case True
        show ?thesis by (rule no_resend [OF q b1 ne c' True])
      next
        case d: False
        from q b1 ne c' d b2 show ?thesis by (rule retry)
      qed
    next
      case (Some y)
      with c have c': "classify (queue s) errors = (Some y, fr)" by simp
      show ?thesis by (rule key_error [OF q b1 ne c'])
    qed
  qed
qed

lemma send_all_flushes: "flushes (snd (snd (send_all bk s e))) = Suc (flushes e)"
  by (cases rule: send_all_paths [where s=s and bk=bk and e=e])
     (simp_all add: send_all_empty send_all_first_ok send_all_KeyError send_all_nothing_to_resend
        send_all_retry)

lemma send_all_not_ValueError: "fst (send_all bk s e) \<noteq> Raise ValueError"
proof -
  obtain r s' e' where eq: "send_all bk s e = (r, s', e')" by (cases "send_all bk s e")
  from send_all_cases[OF eq] show ?thesis by (auto simp: eq)
qed

subsection \<open>The documents that failure entries name\<close>

lemma retry_step_named:
  "retry_step m error fr = Inr fr' \<Longrightarrow> \<not> whole_batch error \<Longrightarrow>
     fr' = (case named_doc m error of [] \<Rightarrow> fr | d # _ \<Rightarrow> send_again_append d fr)"
  by (auto simp: retry_step_def retry_inner_def whole_batch_def named_doc_def split: option.splits)

lemma retry_step_named_deref:
  assumes "retry_step m error fr = Inr fr'" "\<not> whole_batch error"
  shows "deref fr' = deref fr @ named_doc m error \<and> send_again fr' = send_again fr"
proof -
  have "length (named_doc m error) \<le> 1"
    by (simp add: named_doc_def split: option.splits)
  then have "named_doc m error = [] \<or> (\<exists>d. named_doc m error = [d])"
    by (cases "named_doc m error") auto
  with retry_step_named [OF assms] show ?thesis
    by (auto simp: send_again_append_deref send_again_append_ref)
qed

lemma retry_step_alias_deref:
  assumes "retry_step m error fr = Inr fr'" "send_again fr = QueueList"
  shows "deref fr' = deref fr @ named_doc m error \<and> send_again fr' = QueueList"
proof (cases "whole_batch error")
  case True
  then have "named_doc m error = []" by (simp add: whole_batch_def named_doc_def)
  moreover from True assms(1) have "fr' = fr\<lparr>send_again := QueueList\<rparr>"
    by (simp add: retry_step_def whole_batch_def)
  ultimately show ?thesis using assms(2) by (simp add: deref_def)
next
  case False
  with retry_step_named_deref [OF assms(1)] assms(2) show ?thesis by simp
qed

lemma retry_loop_alias:
  "retry_loop m errors fr = (None, fr') \<Longrightarrow> send_again fr = QueueList \<Longrightarrow>
     deref fr' = deref fr @ named_docs m errors"
proof (induction errors arbitrary: fr)
  case Nil
  then show ?case by (simp add: named_docs_def)
next
  case (Cons error errors)
  from Cons.prems(1) obtain fr1 where
    st: "retry_step m error fr = Inr fr1" and lp: "retry_loop m errors fr1 = (None, fr')"
    by (auto split: sum.splits)
  from retry_step_alias_deref [OF st Cons.prems(2)]
  have 1: "deref fr1 = deref fr @ named_doc m error" and 2: "send_again fr1 = QueueList" by simp_all
  from Cons.IH [OF lp 2] 1 show ?case by (simp add: named_docs_def)
qed

lemma retry_loop_fresh:
  "retry_loop m errors fr = (None, fr') \<Longrightarrow> \<forall>error\<in>set errors. \<not> whole_batch error \<Longrightarrow>
     deref fr' = deref fr @ named_docs m errors \<and> send_again fr' = send_again fr
     \<and> (send_again fr = FreshList \<longrightarrow> queue_obj fr' = queue_obj fr)"
proof (induction errors arbitrary: fr)
  case Nil
  then show ?case by (simp add: named_docs_def)
next
  case (Cons error errors)
  from Cons.prems(1) obtain fr1 where
    st: "retry_step m error fr = Inr fr1" and lp: "retry_loop m errors fr1 = (None, fr')"
    by (auto split: sum.splits)
  from Cons.prems(2) have nb: "\<not> whole_batch error" and rest: "\<forall>error\<in>set errors. \<not> whole_batch error"
    by simp_all
  from retry_step_named_deref [OF st nb]
  have 1: "deref fr1 = deref fr @ named_doc m error" and 2: "send_again fr1 = send_again fr" by simp_all
  from retry_step_named [OF st nb]
  have 3: "send_again fr = FreshList \<longrightarrow> queue_obj fr1 = queue_obj fr"
    by (auto simp: send_again_append_def split: list.splits)
  from Cons.IH [OF lp rest] 1 2 3 show ?case by (simp add: named_docs_def)
qed

lemma retry_loop_append:
  "retry_loop m (xs @ ys) fr =
     (case retry_loop m xs fr of (Some x, f) \<Rightarrow> (Some x, f) | (None, f) \<Rightarrow> retry_loop m ys f)"
  by (induction xs arbitrary: fr) (auto split: sum.splits)

lemma classify_no_batch:
  assumes "classify q errors = (None, fr)" "\<forall>error\<in>set errors. \<not> whole_batch error"
  shows "deref fr = named_docs (id_to_doc q) errors"
  using retry_loop_fresh [OF assms(1) [unfolded classify_def] assms(2)]
  by (auto simp: deref_def)

lemma classify_first_batch:
  assumes "classify q (pre @ u # post) = (None, fr)"
    and "\<forall>error\<in>set pre. \<not> whole_batch error" and "whole_batch u"
  shows "deref fr = q @ named_docs (id_to_doc q) post"
proof -
  let ?m = "id_to_doc q"
  let ?f0 = "\<lparr>queue_obj = q, fresh_obj = [], send_again = FreshList\<rparr>"
  from assms(1) obtain f1 where
    p1: "retry_loop ?m pre ?f0 = (None, f1)" and p2: "retry_loop ?m (u # post) f1 = (None, fr)"
    by (auto simp: classify_def retry_loop_append split: prod.splits option.splits)
  from retry_loop_fresh [OF p1 assms(2)] have q1: "queue_obj f1 = q" by simp
  from p2 assms(3) have p3: "retry_loop ?m post (f1\<lparr>send_again := QueueList\<rparr>) = (None, fr)"
    by (simp add: retry_step_def whole_batch_def)
  from retry_loop_alias [OF p3] q1 show ?thesis by (simp add: deref_def)
qed

lemma classify_some_batch:
  assumes "classify q errors = (None, fr)" "error \<in> set errors" "whole_batch error"
  shows "send_again fr = QueueList \<and> prefix q (deref fr)"
proof -
  from assms have "send_again fr = QueueList"
    unfolding classify_def whole_batch_def by (auto dest: retry_loop_unknown)
  with classify_prefix [OF assms(1)] show ?thesis by (simp add: deref_def)
qed



lemma send_all_dispatched:
  "\<exists>ds. dispatched (snd (snd (send_all bk s e))) = dispatched e @ ds \<and> length ds \<le> 2
     \<and> (fst (send_all bk s e) = Raise RetryError \<longleftrightarrow> length ds = 2 \<and> snd (last ds) \<noteq> [])"
proof (cases rule: send_all_paths [where s=s and bk=bk and e=e])
  case empty
  then show ?thesis by (simp add: send_all_empty)
next
  case (first_ok w)
  then show ?thesis by (simp add: send_all_first_ok)
next
  case (key_error errors w x fr)
  moreover from key_error(4) have "x = KeyError" by (rule classify_exc)
  ultimately show ?thesis by (simp add: send_all_KeyError)
next
  case (no_resend errors w fr)
  then show ?thesis by (simp add: send_all_nothing_to_resend)
next
  case (retry errors w fr errors2 w2)
  then show ?thesis by (simp add: send_all_retry)
qed

subsection \<open>The running total\<close>

lemma budget_append_document:
  "size_total s = budget elb (queue s) \<Longrightarrow>
     size_total (append_document elb d s) = budget elb (queue (append_document elb d s))"
  by (simp add: append_document_def budget_def Let_def)

lemma budget_send_all:
  "send_all bk s e = (Return, s', e') \<Longrightarrow> size_total s = budget elb (queue s) \<Longrightarrow>
     size_total s' = budget elb (queue s')"
  by (drule send_all_cases) (auto simp: budget_def)

lemma budget_append:
  "append bk elb now a s e = (Return, s', e') \<Longrightarrow> size_total s = budget elb (queue s) \<Longrightarrow>
     size_total s' = budget elb (queue s')"
  by (auto simp: append_def Let_def split: if_splits
           dest: budget_send_all [where elb=elb] intro: budget_append_document)

lemma budget_exec:
  "exec bk elb c s e = (Return, s', e') \<Longrightarrow> size_total s = budget elb (queue s) \<Longrightarrow>
     size_total s' = budget elb (queue s')"
  by (cases c) (auto dest: budget_append budget_send_all [where elb=elb] intro: budget_append_document)

lemma budget_run:
  "run bk elb cs s e = (Return, s', e') \<Longrightarrow> size_total s = budget elb (queue s) \<Longrightarrow>
     size_total s' = budget elb (queue s')"
proof (induction cs arbitrary: s e)
  case Nil
  then show ?case by simp
next
  case (Cons c cs)
  obtain r s1 e1 where ex: "exec bk elb c s e = (r, s1, e1)" by (cases "exec bk elb c s e")
  show ?case
  proof (cases r)
    case Return
    with ex Cons.prems have "run bk elb cs s1 e1 = (Return, s', e')" by simp
    moreover from ex Return Cons.prems have "size_total s1 = budget elb (queue s1)"
      by (auto dest: budget_exec)
    ultimately show ?thesis by (rule Cons.IH)
  next
    case (Raise x)
    with ex Cons.prems show ?thesis by simp
  qed
qed

lemma append_empty_text_le:
  assumes "a_text a = []"
  shows "size_total (fst (snd (append bk elb now a s e))) \<le> size_total s"
proof -
  let ?s1 = "append_document elb (body now a) s"
  have s1: "size_total ?s1 = size_total s"
    using assms by (simp add: append_document_def body_def Let_def)
  obtain r s' e' where eq: "send_all bk ?s1 e = (r, s', e')" by (cases "send_all bk ?s1 e")
  have "QUEUE_LIMIT_BYTES \<le> size_total ?s1 \<Longrightarrow> size_total s' \<le> size_total s"
    using send_all_cases [OF eq] s1 by (auto simp: QUEUE_LIMIT_BYTES_def)
  then show ?thesis using s1 eq by (auto simp: append_def Let_def)
qed

text \<open>Every state reached from the empty queue by calls that return has total 0 when its queue is empty.\<close>

lemma reachable_empty_total:
  assumes "run bk elb cs init e = (Return, s, e')"
  shows "queue s = [] \<longrightarrow> size_total s = 0"
proof -
  have "size_total init = budget elb (queue init)" by (simp add: init_def budget_def)
  with assms have "size_total s = budget elb (queue s)" by (rule budget_run)
  then show ?thesis by (simp add: budget_def)
qed

section \<open>The claims\<close>

subsection \<open>C1\<close>

text \<open>
  Claim C1. One call of \<^verbatim>\<open>send_all\<close> extends the log of bulk calls by at most two
  entries, whatever the queue and whatever the backend answers; and when it has made a
  second bulk call that reports failures, it ends with \<^verbatim>\<open>RetryError\<close>.
\<close>

theorem send_all_dispatch_bound:
  "take (length (dispatched e)) (dispatched (snd (snd (send_all bk s e)))) = dispatched e
   \<and> length (dispatched (snd (snd (send_all bk s e)))) \<le> length (dispatched e) + 2
   \<and> (length (dispatched (snd (snd (send_all bk s e)))) = length (dispatched e) + 2
        \<and> snd (last (dispatched (snd (snd (send_all bk s e))))) \<noteq> []
      \<longrightarrow> fst (send_all bk s e) = Raise RetryError)"
proof -
  from send_all_dispatched [of bk s e] obtain ds where
    ds: "dispatched (snd (snd (send_all bk s e))) = dispatched e @ ds" "length ds \<le> 2"
      "fst (send_all bk s e) = Raise RetryError \<longleftrightarrow> length ds = 2 \<and> snd (last ds) \<noteq> []"
    by blast
  have "length ds = 2 \<Longrightarrow> last (dispatched e @ ds) = last ds"
    by (cases ds) auto
  with ds show ?thesis by auto
qed

theorem send_all_dispatch_bound_witness:
  "length (dispatched (snd (snd (send_all scripted_backend two_docs
      (start [[failure ''index'' ''a:None''], [failure ''index'' ''a:None'']])))))
     = length (dispatched (start [[failure ''index'' ''a:None''], [failure ''index'' ''a:None'']])) + 2
   \<and> snd (last (dispatched (snd (snd (send_all scripted_backend two_docs
      (start [[failure ''index'' ''a:None''], [failure ''index'' ''a:None'']])))))) \<noteq> []
   \<and> fst (send_all scripted_backend two_docs
      (start [[failure ''index'' ''a:None''], [failure ''index'' ''a:None'']])) = Raise RetryError"
  using send_all_dispatch_bound [where e="start [[failure ''index'' ''a:None''], [failure ''index'' ''a:None'']]"
     and bk=scripted_backend and s=two_docs]
  by (simp add: concrete_defs)

subsection \<open>C2\<close>



subsection \<open>C3\<close>

text \<open>
  Claim C3, amended. The retry list is not deduplicated. When no failure entry asks for
  the whole batch, it holds the named document of each entry in turn, once per entry.
  When some entry asks for the whole batch, the retry list starts with the whole queue,
  in whatever order the entries come; and it is the queue itself when no entry after the
  first such entry names a document.
\<close>

theorem retry_set_shape:
  assumes "classify q errors = (None, fr)"
  shows "((\<forall>error\<in>set errors. \<not> whole_batch error) \<longrightarrow> deref fr = named_docs (id_to_doc q) errors)
       \<and> ((\<exists>error\<in>set errors. whole_batch error) \<longrightarrow> prefix q (deref fr))
       \<and> (\<forall>pre u post. errors = pre @ u # post \<and> (\<forall>error\<in>set pre. \<not> whole_batch error)
             \<and> whole_batch u \<and> named_docs (id_to_doc q) post = [] \<longrightarrow> deref fr = q)"
proof (intro conjI impI allI)
  assume "\<forall>error\<in>set errors. \<not> whole_batch error"
  with assms show "deref fr = named_docs (id_to_doc q) errors" by (rule classify_no_batch)
next
  assume "\<exists>error\<in>set errors. whole_batch error"
  then obtain error where "error \<in> set errors" "whole_batch error" by blast
  with assms show "prefix q (deref fr)" by (blast dest: classify_some_batch)
next
  fix pre u post
  assume h: "errors = pre @ u # post \<and> (\<forall>error\<in>set pre. \<not> whole_batch error)
             \<and> whole_batch u \<and> named_docs (id_to_doc q) post = []"
  with assms have "classify q (pre @ u # post) = (None, fr)" by simp
  from classify_first_batch [OF this] h show "deref fr = q" by simp
qed

theorem retry_set_shape_witness:
  "classify (queue two_docs) [failure ''index'' ''a:None'', unknown_failure] = (None, frame0\<lparr>fresh_obj := [sample ''a'' ''x'' 5], send_again := QueueList\<rparr>)
   \<and> whole_batch unknown_failure
   \<and> deref (frame0\<lparr>fresh_obj := [sample ''a'' ''x'' 5], send_again := QueueList\<rparr>) = queue two_docs"
proof -
  have c: "classify (queue two_docs) [failure ''index'' ''a:None'', unknown_failure]
      = (None, frame0\<lparr>fresh_obj := [sample ''a'' ''x'' 5], send_again := QueueList\<rparr>)"
    by (simp add: concrete_defs)
  have h: "[failure ''index'' ''a:None'', unknown_failure] = [failure ''index'' ''a:None''] @ unknown_failure # []
      \<and> (\<forall>error\<in>set [failure ''index'' ''a:None'']. \<not> whole_batch error)
      \<and> whole_batch unknown_failure \<and> named_docs (id_to_doc (queue two_docs)) [] = []"
    by (simp add: concrete_defs)
  have b: "whole_batch unknown_failure"
    by (simp add: concrete_defs)
  from retry_set_shape [OF c] h have "deref (frame0\<lparr>fresh_obj := [sample ''a'' ''x'' 5], send_again := QueueList\<rparr>) = queue two_docs"
    by blast
  with c b show ?thesis by blast
qed

text \<open>
  The retry list as first claimed, without two entries of one identifier and equal to the
  queue once an entry asks for the whole batch, is not what the loop builds: two entries
  for one identifier send the document twice, and an entry for a document that comes
  after the entry for the whole batch is sent along with the batch.
\<close>

theorem retry_set_counterexample:
  "map d_id (queue two_docs) = [''a:None'', ''b:None'']
   \<and> map d_id (fst (last (dispatched (snd (snd (send_all scripted_backend two_docs
        (start [[failure ''index'' ''a:None'', failure ''index'' ''a:None'']])))))))
      = [''a:None'', ''a:None'']
   \<and> \<not> distinct (map d_id (fst (last (dispatched (snd (snd (send_all scripted_backend two_docs
        (start [[failure ''index'' ''a:None'', failure ''index'' ''a:None'']]))))))))
   \<and> whole_batch unknown_failure
   \<and> map d_id (fst (last (dispatched (snd (snd (send_all scripted_backend two_docs
        (start [[unknown_failure, failure ''index'' ''a:None'']])))))))
      = [''a:None'', ''b:None'', ''a:None'']
   \<and> fst (last (dispatched (snd (snd (send_all scripted_backend two_docs
        (start [[unknown_failure, failure ''index'' ''a:None'']])))))) \<noteq> queue two_docs
   \<and> fst (last (dispatched (snd (snd (send_all scripted_backend two_docs
        (start [[failure ''index'' ''a:None'', unknown_failure]])))))) = queue two_docs"
  by (simp add: concrete_defs)

subsection \<open>C4\<close>

text \<open>
  Claim C4. After every sequence of calls that returns, started on the empty queue, the
  running total is the sum of \<open>min size elb\<close> over the pending documents with non-empty
  text; and adding a document with empty text never increases the total.
\<close>

theorem budget_invariant:
  "(run bk elb cs init e = (Return, s, e') \<longrightarrow> size_total s = budget elb (queue s))
   \<and> (d_content d = [] \<longrightarrow> size_total (append_document elb d t) = size_total t)
   \<and> (a_text a = [] \<longrightarrow> size_total (fst (snd (append bk elb now a t g))) \<le> size_total t)"
proof -
  have "size_total init = budget elb (queue init)" by (simp add: init_def budget_def)
  then have "run bk elb cs init e = (Return, s, e') \<Longrightarrow> size_total s = budget elb (queue s)"
    by (rule budget_run [rotated])
  then show ?thesis
    by (auto simp: append_document_def Let_def intro: append_empty_text_le)
qed

theorem budget_invariant_witness:
  "run scripted_backend 4 [Append ''now'' (event_args ''ObjectCreated:Put'' ''k'' ''text'' 9 PyNone),
        AppendDocument (sample ''b'' '''' 7), AppendDocument (sample ''a'' ''x'' 3)] init (start [])
     = (Return, \<lparr>queue = [sample ''k'' ''text'' 9, sample ''b'' '''' 7, sample ''a'' ''x'' 3], size_total = 7\<rparr>, start [])
   \<and> budget 4 [sample ''k'' ''text'' 9, sample ''b'' '''' 7, sample ''a'' ''x'' 3] = 7
   \<and> d_content (sample ''b'' '''' 7) = []
   \<and> size_total (append_document 4 (sample ''b'' '''' 7) two_docs) = size_total two_docs
   \<and> a_text (event_args ''ObjectCreated:Put'' ''k'' '''' 9 PyNone) = []
   \<and> size_total (fst (snd (append scripted_backend 4 ''now'' (event_args ''ObjectCreated:Put'' ''k'' '''' 9 PyNone) two_docs (start []))))
        \<le> size_total two_docs"
proof -
  have r: "run scripted_backend 4 [Append ''now'' (event_args ''ObjectCreated:Put'' ''k'' ''text'' 9 PyNone),
        AppendDocument (sample ''b'' '''' 7), AppendDocument (sample ''a'' ''x'' 3)] init (start [])
     = (Return, \<lparr>queue = [sample ''k'' ''text'' 9, sample ''b'' '''' 7, sample ''a'' ''x'' 3], size_total = 7\<rparr>, start [])"
    by (simp add: concrete_defs)
  have t: "d_content (sample ''b'' '''' 7) = [] \<and> a_text (event_args ''ObjectCreated:Put'' ''k'' '''' 9 PyNone) = []"
    by (simp add: concrete_defs)
  from budget_invariant [where bk=scripted_backend and elb=4 and e="start []" and t=two_docs
      and d="sample ''b'' '''' 7" and a="event_args ''ObjectCreated:Put'' ''k'' '''' 9 PyNone"
      and g="start []" and now="''now''"
      and cs="[Append ''now'' (event_args ''ObjectCreated:Put'' ''k'' ''text'' 9 PyNone),
        AppendDocument (sample ''b'' '''' 7), AppendDocument (sample ''a'' ''x'' 3)]"
      and s="\<lparr>queue = [sample ''k'' ''text'' 9, sample ''b'' '''' 7, sample ''a'' ''x'' 3], size_total = 7\<rparr>"
      and e'="start []"] r t
  show ?thesis by simp
qed

subsection \<open>C5\<close>

text \<open>
  Claim C5. For an accepted event, \<^verbatim>\<open>append\<close> calls \<^verbatim>\<open>send_all\<close> exactly once when the
  total after queueing the document reaches \<^verbatim>\<open>QUEUE_LIMIT_BYTES\<close>, and if it then returns,
  the total is 0 and the queue is empty; below the limit it returns with the document
  queued and the surroundings untouched.
\<close>

theorem append_threshold:
  assumes "isinstance_str_or_none (a_version_id a)"
    and "prefix EVENT_PREFIX_Created (a_event_type a) \<or> prefix EVENT_PREFIX_Removed (a_event_type a)"
  shows "(QUEUE_LIMIT_BYTES \<le> size_total (append_document elb (body now a) s) \<longrightarrow>
            flushes (snd (snd (append bk elb now a s e))) = Suc (flushes e)
            \<and> (fst (append bk elb now a s e) = Return \<longrightarrow>
                  size_total (fst (snd (append bk elb now a s e))) = 0
                  \<and> queue (fst (snd (append bk elb now a s e))) = []))
       \<and> (size_total (append_document elb (body now a) s) < QUEUE_LIMIT_BYTES \<longrightarrow>
            append bk elb now a s e = (Return, append_document elb (body now a) s, e))"
proof -
  let ?s1 = "append_document elb (body now a) s"
  have ne: "queue ?s1 \<noteq> []" by (simp add: append_document_def Let_def)
  have app: "QUEUE_LIMIT_BYTES \<le> size_total ?s1 \<Longrightarrow> append bk elb now a s e = send_all bk ?s1 e"
    using assms by (auto simp: append_def Let_def)
  have low: "size_total ?s1 < QUEUE_LIMIT_BYTES \<Longrightarrow> append bk elb now a s e = (Return, ?s1, e)"
    using assms by (auto simp: append_def Let_def)
  obtain r s' e' where eq: "send_all bk ?s1 e = (r, s', e')" by (cases "send_all bk ?s1 e")
  from send_all_cases [OF eq] ne
  have "r = Return \<Longrightarrow> size_total s' = 0 \<and> queue s' = []" by auto
  with app low eq send_all_flushes [of bk ?s1 e] show ?thesis by auto
qed

theorem append_threshold_witness:
  "isinstance_str_or_none (a_version_id big_args)
   \<and> prefix EVENT_PREFIX_Created (a_event_type big_args)
   \<and> QUEUE_LIMIT_BYTES \<le> size_total (append_document 200000000 (body ''now'' big_args) two_docs)
   \<and> append scripted_backend 200000000 ''now'' big_args two_docs (start [])
       = (Return, \<lparr>queue = [], size_total = 0\<rparr>,
          \<lparr>es = [], dispatched = [(queue two_docs @ [body ''now'' big_args], [])], flushes = 1\<rparr>)
   \<and> size_total (append_document 1000 (body ''now'' big_args) two_docs) < QUEUE_LIMIT_BYTES
   \<and> append scripted_backend 1000 ''now'' big_args two_docs (start [])
       = (Return, append_document 1000 (body ''now'' big_args) two_docs, start [])"
proof -
  have h: "isinstance_str_or_none (a_version_id big_args)"
    "prefix EVENT_PREFIX_Created (a_event_type big_args) \<or> prefix EVENT_PREFIX_Removed (a_event_type big_args)"
    by (simp_all add: concrete_defs)
  have hi: "QUEUE_LIMIT_BYTES \<le> size_total (append_document 200000000 (body ''now'' big_args) two_docs)"
    by (simp add: concrete_defs)
  have lo: "size_total (append_document 1000 (body ''now'' big_args) two_docs) < QUEUE_LIMIT_BYTES"
    by (simp add: concrete_defs)
  have ev: "append scripted_backend 200000000 ''now'' big_args two_docs (start [])
       = (Return, \<lparr>queue = [], size_total = 0\<rparr>,
          \<lparr>es = [], dispatched = [(queue two_docs @ [body ''now'' big_args], [])], flushes = 1\<rparr>)"
    by (simp add: concrete_defs)
  have p: "prefix EVENT_PREFIX_Created (a_event_type big_args)" by (simp add: concrete_defs)
  from append_threshold [OF h, where elb=1000 and now="''now''" and s=two_docs and bk=scripted_backend
      and e="start []"] lo
  have "append scripted_backend 1000 ''now'' big_args two_docs (start [])
       = (Return, append_document 1000 (body ''now'' big_args) two_docs, start [])"
    by blast
  with h(1) p hi lo ev show ?thesis by blast
qed

subsection \<open>C6\<close>

text \<open>
  Claim C6, amended. The identifier is the key, a colon and the version id as an f-string
  prints it: the string itself, and \<^verbatim>\<open>None\<close> spelled out when the version id is absent.
  Equal keys and equal version ids give equal identifiers; equal keys and different
  version ids give different identifiers, unless one is absent and the other is the
  string \<^verbatim>\<open>None\<close>.
\<close>

theorem document_identifier:
  "(a_version_id a = PyStr v \<longrightarrow> d_id (body now a) = a_key a @ '':'' @ v)
   \<and> (a_version_id a = PyNone \<longrightarrow> d_id (body now a) = a_key a @ '':None'')
   \<and> (a_key a = a_key b \<and> a_version_id a = a_version_id b \<longrightarrow>
        d_id (body now a) = d_id (body now' b))
   \<and> (a_key a = a_key b \<and> a_version_id a \<noteq> a_version_id b
        \<and> isinstance_str_or_none (a_version_id a) \<and> isinstance_str_or_none (a_version_id b)
        \<and> {a_version_id a, a_version_id b} \<noteq> {PyNone, PyStr ''None''} \<longrightarrow>
        d_id (body now a) \<noteq> d_id (body now' b))"
proof -
  have "isinstance_str_or_none x \<Longrightarrow> isinstance_str_or_none y \<Longrightarrow> x \<noteq> y \<Longrightarrow>
      {x, y} \<noteq> {PyNone, PyStr ''None''} \<Longrightarrow>
      format_version (version_of x) \<noteq> format_version (version_of y)" for x y
    by (cases x; cases y) (auto simp: doubleton_eq_iff)
  then show ?thesis by (auto simp: body_def)
qed

theorem document_identifier_witness:
  "d_id (body ''now'' (event_args ''ObjectCreated:Put'' ''k'' ''text'' 5 (PyStr ''v1''))) = ''k:v1''
   \<and> d_id (body ''now'' (event_args ''ObjectCreated:Put'' ''k'' ''text'' 5 PyNone)) = ''k:None''
   \<and> d_id (body ''now'' (event_args ''ObjectCreated:Put'' ''k'' ''text'' 5 (PyStr ''v1'')))
       = d_id (body ''later'' (event_args ''ObjectRemoved:Delete'' ''k'' '''' 0 (PyStr ''v1'')))
   \<and> d_id (body ''now'' (event_args ''ObjectCreated:Put'' ''k'' ''text'' 5 (PyStr ''v1'')))
       \<noteq> d_id (body ''later'' (event_args ''ObjectCreated:Put'' ''k'' ''text'' 5 (PyStr ''v2'')))"
  using
    document_identifier [where a="event_args ''ObjectCreated:Put'' ''k'' ''text'' 5 (PyStr ''v1'')"
      and v="''v1''" and now="''now''" and now'="''later''"
      and b="event_args ''ObjectRemoved:Delete'' ''k'' '''' 0 (PyStr ''v1'')"]
    document_identifier [where a="event_args ''ObjectCreated:Put'' ''k'' ''text'' 5 PyNone"
      and now="''now''" and b="event_args ''ObjectCreated:Put'' ''k'' ''text'' 5 PyNone"]
    document_identifier [where a="event_args ''ObjectCreated:Put'' ''k'' ''text'' 5 (PyStr ''v1'')"
      and v="''v1''" and now="''now''" and now'="''later''"
      and b="event_args ''ObjectCreated:Put'' ''k'' ''text'' 5 (PyStr ''v2'')"]
  by (auto simp: event_args_def doubleton_eq_iff)

text \<open>
  With the version id absent the identifier does not end at the colon, and the absent
  version id and the string \<^verbatim>\<open>None\<close> share one identifier.
\<close>

theorem document_identifier_counterexample:
  "map d_id (queue (fst (snd (append scripted_backend 1000 ''now''
       (event_args ''ObjectCreated:Put'' ''k'' ''text'' 5 PyNone) init (start [])))))
     = [''k:None'']
   \<and> ''k:None'' \<noteq> ''k'' @ '':'' @ ''''
   \<and> map d_id (queue (fst (snd (append scripted_backend 1000 ''now''
       (event_args ''ObjectCreated:Put'' ''k'' ''text'' 5 (PyStr ''None'')) init (start [])))))
     = [''k:None'']
   \<and> PyNone \<noteq> PyStr ''None''"
  by (simp add: concrete_defs)

subsection \<open>C7\<close>

text \<open>
  Claim C7, amended. For an accepted event, \<^verbatim>\<open>append\<close> queues a document whose text is
  the text passed in, and whose operation is \<^verbatim>\<open>delete\<close> exactly when the event type starts
  with \<^verbatim>\<open>ObjectRemoved:\<close>; it then flushes or returns according to the total.
\<close>

theorem removed_event_document:
  assumes "isinstance_str_or_none (a_version_id a)"
    and "prefix EVENT_PREFIX_Created (a_event_type a) \<or> prefix EVENT_PREFIX_Removed (a_event_type a)"
  shows "\<exists>d. append bk elb now a s e =
              (if QUEUE_LIMIT_BYTES \<le> size_total (append_document elb d s)
               then send_all bk (append_document elb d s) e
               else (Return, append_document elb d s, e))
           \<and> d_content d = a_text a
           \<and> (d_op_type d = ''delete'' \<longleftrightarrow> prefix EVENT_PREFIX_Removed (a_event_type a))"
proof -
  have "append bk elb now a s e =
          (if QUEUE_LIMIT_BYTES \<le> size_total (append_document elb (body now a) s)
           then send_all bk (append_document elb (body now a) s) e
           else (Return, append_document elb (body now a) s, e))"
    using assms by (auto simp: append_def Let_def)
  moreover have "d_content (body now a) = a_text a" by (simp add: body_def)
  moreover have "d_op_type (body now a) = ''delete'' \<longleftrightarrow> prefix EVENT_PREFIX_Removed (a_event_type a)"
    by (simp add: body_def)
  ultimately show ?thesis by blast
qed

theorem removed_event_document_witness:
  "isinstance_str_or_none (a_version_id removed_args)
   \<and> prefix EVENT_PREFIX_Removed (a_event_type removed_args)
   \<and> (\<exists>d. append scripted_backend 1000 ''now'' removed_args init (start [])
             = (Return, append_document 1000 d init, start [])
          \<and> d_content d = ''abc'' \<and> d_op_type d = ''delete'')"
proof -
  have h: "isinstance_str_or_none (a_version_id removed_args)"
    "prefix EVENT_PREFIX_Created (a_event_type removed_args) \<or> prefix EVENT_PREFIX_Removed (a_event_type removed_args)"
    by (simp_all add: concrete_defs)
  have p: "prefix EVENT_PREFIX_Removed (a_event_type removed_args)" by (simp add: concrete_defs)
  have t: "a_text removed_args = ''abc''" by (simp add: concrete_defs)
  have lo: "\<not> QUEUE_LIMIT_BYTES \<le> size_total (append_document 1000 d init)" for d
    by (simp add: concrete_defs Let_def)
  from removed_event_document [OF h, where bk=scripted_backend and elb=1000 and now="''now''"
      and s=init and e="start []"]
  obtain d where "append scripted_backend 1000 ''now'' removed_args init (start [])
      = (if QUEUE_LIMIT_BYTES \<le> size_total (append_document 1000 d init)
         then send_all scripted_backend (append_document 1000 d init) (start [])
         else (Return, append_document 1000 d init, start []))"
    "d_content d = a_text removed_args"
    "d_op_type d = ''delete'' \<longleftrightarrow> prefix EVENT_PREFIX_Removed (a_event_type removed_args)"
    by blast
  with lo p t have "append scripted_backend 1000 ''now'' removed_args init (start [])
             = (Return, append_document 1000 d init, start [])
          \<and> d_content d = ''abc'' \<and> d_op_type d = ''delete''"
    by simp
  with h(1) p show ?thesis by blast
qed

text \<open>
  A removed event with a text passed in: the document is a \<^verbatim>\<open>delete\<close> and keeps the text.
\<close>

theorem removed_event_document_counterexample:
  "prefix EVENT_PREFIX_Removed (a_event_type removed_args)
   \<and> map d_op_type (queue (fst (snd (append scripted_backend 1000 ''now'' removed_args init (start [])))))
       = [''delete'']
   \<and> map d_content (queue (fst (snd (append scripted_backend 1000 ''now'' removed_args init (start [])))))
       = [''abc'']"
  by (simp add: concrete_defs)

subsection \<open>C8\<close>

text \<open>
  Claim C8. \<^verbatim>\<open>append\<close> raises \<^verbatim>\<open>ValueError\<close> exactly when \<^verbatim>\<open>version_id\<close> is neither a
  string nor \<^verbatim>\<open>None\<close>, and then it raises before anything is built or queued: the queue,
  the running total and the surroundings are as they were.
\<close>

theorem append_ValueError_iff:
  "(fst (append bk elb now a s e) = Raise ValueError \<longleftrightarrow> \<not> isinstance_str_or_none (a_version_id a))
   \<and> (\<not> isinstance_str_or_none (a_version_id a) \<longrightarrow>
        append bk elb now a s e = (Raise ValueError, s, e))"
  by (simp add: append_def Let_def send_all_not_ValueError)

theorem append_ValueError_iff_witness:
  "\<not> isinstance_str_or_none (PyInt 7)
   \<and> append scripted_backend 1000 ''now'' (event_args ''ObjectCreated:Put'' ''k'' ''text'' 5 (PyInt 7))
        \<lparr>queue = [sample ''a'' ''x'' 3], size_total = 3\<rparr> (start [])
      = (Raise ValueError, \<lparr>queue = [sample ''a'' ''x'' 3], size_total = 3\<rparr>, start [])"
  using append_ValueError_iff [of scripted_backend 1000 "''now''"
      "event_args ''ObjectCreated:Put'' ''k'' ''text'' 5 (PyInt 7)"
      "\<lparr>queue = [sample ''a'' ''x'' 3], size_total = 3\<rparr>" "start []"]
  by (simp add: event_args_def)

subsection \<open>C9\<close>

text \<open>
  Claim C9. From a state in which an empty queue has total 0, a call of \<^verbatim>\<open>send_all\<close> that
  returns leaves the queue empty and the total 0; a call that raises leaves the total as
  it was and the queue not empty, still starting with the documents it had.
\<close>

theorem send_all_reset:
  assumes "queue s = [] \<longrightarrow> size_total s = 0"
  shows "(fst (send_all bk s e) = Return \<longrightarrow>
            queue (fst (snd (send_all bk s e))) = [] \<and> size_total (fst (snd (send_all bk s e))) = 0)
       \<and> (\<forall>x. fst (send_all bk s e) = Raise x \<longrightarrow>
            queue (fst (snd (send_all bk s e))) \<noteq> []
            \<and> prefix (queue s) (queue (fst (snd (send_all bk s e))))
            \<and> size_total (fst (snd (send_all bk s e))) = size_total s)"
proof -
  obtain r s' e' where eq: "send_all bk s e = (r, s', e')" by (cases "send_all bk s e")
  from send_all_cases [OF eq] assms show ?thesis
    by (auto simp: eq)
qed

theorem send_all_reset_witness:
  "queue two_docs \<noteq> []
   \<and> send_all scripted_backend two_docs (start [[failure ''index'' ''a:None'']])
       = (Return, \<lparr>queue = [], size_total = 0\<rparr>,
          \<lparr>es = [], dispatched = [(queue two_docs, [failure ''index'' ''a:None'']), ([sample ''a'' ''x'' 5], [])],
           flushes = 1\<rparr>)
   \<and> fst (send_all scripted_backend two_docs (start [[failure ''delete'' ''b:None''], [unknown_failure]]))
       = Raise RetryError
   \<and> queue (fst (snd (send_all scripted_backend two_docs (start [[failure ''delete'' ''b:None''], [unknown_failure]]))))
       \<noteq> []
   \<and> size_total (fst (snd (send_all scripted_backend two_docs (start [[failure ''delete'' ''b:None''], [unknown_failure]]))))
       = size_total two_docs"
proof -
  have inv: "queue two_docs = [] \<longrightarrow> size_total two_docs = 0" by (simp add: concrete_defs)
  have ok: "send_all scripted_backend two_docs (start [[failure ''index'' ''a:None'']])
       = (Return, \<lparr>queue = [], size_total = 0\<rparr>,
          \<lparr>es = [], dispatched = [(queue two_docs, [failure ''index'' ''a:None'']), ([sample ''a'' ''x'' 5], [])],
           flushes = 1\<rparr>)"
    by (simp add: concrete_defs)
  have bad: "fst (send_all scripted_backend two_docs (start [[failure ''delete'' ''b:None''], [unknown_failure]]))
       = Raise RetryError"
    by (simp add: concrete_defs)
  from send_all_reset [OF inv, where bk=scripted_backend
      and e="start [[failure ''delete'' ''b:None''], [unknown_failure]]"] bad
  have "queue (fst (snd (send_all scripted_backend two_docs (start [[failure ''delete'' ''b:None''], [unknown_failure]])))) \<noteq> []
     \<and> size_total (fst (snd (send_all scripted_backend two_docs (start [[failure ''delete'' ''b:None''], [unknown_failure]]))))
       = size_total two_docs"
    by blast
  moreover have "queue two_docs \<noteq> []" by (simp add: concrete_defs)
  ultimately show ?thesis using ok bad by blast
qed

subsection \<open>C10\<close>

text \<open>
  Claim C10. A call of \<^verbatim>\<open>append_document\<close> returns with the document at the end of the
  queue and the running total updated, and with the surroundings untouched: no bulk call
  and no call of \<^verbatim>\<open>send_all\<close>, whatever the new total is.
\<close>

theorem append_document_no_dispatch:
  "exec bk elb (AppendDocument d) s e =
     (Return,
      \<lparr>queue = queue s @ [d],
       size_total = size_total s + (if d_content d \<noteq> [] then min (d_size d) elb else 0)\<rparr>,
      e)"
  by (simp add: append_document_def)

theorem append_document_no_dispatch_witness:
  "exec scripted_backend 200000000 (AppendDocument (sample ''a'' ''x'' 150000000)) two_docs (start [])
     = (Return, \<lparr>queue = queue two_docs @ [sample ''a'' ''x'' 150000000], size_total = 150000005\<rparr>, start [])
   \<and> QUEUE_LIMIT_BYTES \<le> 150000005"
  using append_document_no_dispatch [of scripted_backend 200000000 "sample ''a'' ''x'' 150000000" two_docs "start []"]
  by (simp add: concrete_defs)

end
